theory Spec2Isabelle
  imports Complex_Main
begin

section \<open>The segment aggregation engine of \<open>src/src/data_engine.py\<close>\<close>

text \<open>
  A shallow embedding of the slicer (\<open>slice_by_game_index\<close>), the aggregator
  (\<open>aggregate_metrics\<close>), the trend classifier (\<open>_calculate_trend\<close>) and the
  assembler (\<open>build_diagnosis_json\<close>).

  Conventions of the embedding:
  \<^item> a pandas DataFrame is the list of its rows, in row order; the Statcast columns the
    engine reads are the fields of the row record, a null cell (NaN, None) is \<open>None\<close>.
    Every frame has these columns, as the provider's frames do: the \<open>KeyError\<close> of
    pandas for a frame without one of them is not part of the model;
  \<^item> a calendar date is its ordinal day number, an \<open>int\<close>;
  \<^item> Python and numpy floating-point numbers are exact rationals (\<open>rat\<close>), so
    rounding errors of the binary representation are not part of the model;
  \<^item> Python strings are byte strings in UTF-8: a non-ASCII character of a literal is
    written as its bytes;
  \<^item> a raised exception is a value \<open>Inl e\<close> of the result type \<open>error + 'a\<close>.
\<close>

subsection \<open>Data model\<close>

record event =
  game_date :: int
  events :: "string option"
  description :: "string option"
  launch_speed :: "rat option"
  launch_angle :: "rat option"
  hit_distance_sc :: "rat option"
  release_spin_rate :: "rat option"

text \<open>The slicer's private copy of the frame carries one more column, \<open>game_index\<close>.\<close>

record indexed_event = event +
  game_index :: "nat option"

text \<open>
  \<open>ValueError\<close> carries its message. A division by zero (Python's
  \<open>ZeroDivisionError\<close>, numpy's \<open>inf\<close>/\<open>nan\<close> result) and a reduction of an empty
  series (pandas's \<open>nan\<close>) are failures of the model as well.
\<close>

datatype error = ValueError string | ZeroDivisionError | EmptySeries

subsection \<open>Python and pandas primitives\<close>

text \<open>\<open>str(n)\<close> of a non-negative integer, as the f-string formats it.\<close>

fun digits :: "nat \<Rightarrow> string" where
  "digits n =
     (if n < 10 then [char_of (48 + n)]
      else digits (n div 10) @ [char_of (48 + n mod 10)])"

declare digits.simps [simp del]

definition str_int :: "int \<Rightarrow> string" where
  "str_int i = (if i < 0 then ''-'' @ digits (nat (- i)) else digits (nat i))"

text \<open>
  \<open>xs[start:stop]\<close> with Python's treatment of negative and out-of-range bounds;
  \<open>None\<close> is an omitted bound.
\<close>

definition py_slice :: "'a list \<Rightarrow> int option \<Rightarrow> int option \<Rightarrow> 'a list" where
  "py_slice xs start stop =
     (let n = int (length xs);
          clamp = (\<lambda>k. if k < 0 then max 0 (n + k) else min k n);
          lo = (case start of None \<Rightarrow> 0 | Some i \<Rightarrow> clamp i);
          hi = (case stop of None \<Rightarrow> n | Some j \<Rightarrow> clamp j)
      in take (nat (hi - lo)) (drop (nat lo) xs))"

text \<open>\<open>Series.drop_duplicates()\<close> keeps the first occurrence of every value.\<close>

definition drop_duplicates :: "'a list \<Rightarrow> 'a list" where
  "drop_duplicates xs = rev (remdups (rev xs))"

text \<open>\<open>Series.dropna()\<close>.\<close>

definition dropna :: "'a option list \<Rightarrow> 'a list" where
  "dropna xs = map the (filter (\<lambda>x. x \<noteq> None) xs)"

text \<open>\<open>Series.nunique()\<close>: the number of distinct values.\<close>

definition nunique :: "'a list \<Rightarrow> nat" where
  "nunique xs = length (drop_duplicates xs)"

subsection \<open>Module A: the game-index slicer\<close>

text \<open>
  The message of the \<open>ValueError\<close> of line 86, an f-string with the game count
  interpolated between two literal pieces; the second piece spells the minimum, 30.
\<close>

definition sample_msg_head :: string where
  "sample_msg_head =
     [CHR 0xE6, CHR 0xA8, CHR 0xA3, CHR 0xE6, CHR 0x9C, CHR 0xAC, CHR 0xE4, CHR 0xB8,
      CHR 0x8D, CHR 0xE8, CHR 0xB6, CHR 0xB3, CHR 0xEF, CHR 0xBC, CHR 0x81, CHR 0xE8,
      CHR 0xA9, CHR 0xB2, CHR 0xE7, CHR 0x90, CHR 0x83, CHR 0xE5, CHR 0x93, CHR 0xA1,
      CHR 0xE6, CHR 0x95, CHR 0xB4, CHR 0xE5, CHR 0xAD, CHR 0xA3, CHR 0xE5, CHR 0x83,
      CHR 0x85, CHR 0xE5, CHR 0x87, CHR 0xBA, CHR 0xE8, CHR 0xB3, CHR 0xBD] @ '' ''"

definition sample_msg_mid :: string where
  "sample_msg_mid =
     '' '' @ [CHR 0xE5, CHR 0xA0, CHR 0xB4, CHR 0xEF, CHR 0xBC, CHR 0x8C, CHR 0xE9,
              CHR 0x9C, CHR 0x80, CHR 0xE8, CHR 0x87, CHR 0xB3, CHR 0xE5, CHR 0xB0,
              CHR 0x91] @ '' ''"

definition sample_msg_end :: string where
  "sample_msg_end = '' '' @ [CHR 0xE5, CHR 0xA0, CHR 0xB4, CHR 0xE3, CHR 0x80, CHR 0x82]"

definition sample_msg :: "int \<Rightarrow> string" where
  "sample_msg n_games =
     sample_msg_head @ str_int n_games @ sample_msg_mid @ ''30'' @ sample_msg_end"

text \<open>
  \<open>df['game_index'] = df['game_date'].map(game_index_map)\<close>: the dictionary is built
  from \<open>enumerate(game_dates)\<close>, a later entry replacing an earlier one with the same
  key; a date that is no key maps to a null cell.
\<close>

definition game_index_map :: "int list \<Rightarrow> int \<Rightarrow> nat option" where
  "game_index_map game_dates = map_of (rev (zip game_dates [0..<length game_dates]))"

definition with_game_index :: "int list \<Rightarrow> event list \<Rightarrow> indexed_event list" where
  "with_game_index game_dates df =
     map (\<lambda>r. event.extend r
                (indexed_event.fields (game_index_map game_dates (game_date r)))) df"

definition slice_by_game_index ::
  "event list \<Rightarrow> error + (indexed_event list \<times> indexed_event list \<times> indexed_event list)"
where
  "slice_by_game_index df0 =
     (let game_dates = sort (drop_duplicates (map game_date df0));
          n_games = int (length game_dates)
      in if n_games < 30 then Inl (ValueError (sample_msg n_games))
         else
           let df = with_game_index game_dates df0;
               early_dates = py_slice game_dates (Some 0) (Some 10);
               early_df = filter (\<lambda>r. game_date r \<in> set early_dates) df;
               mid_center = n_games div 2;
               mid_start = mid_center - 5;
               mid_end = mid_center + 5;
               mid_dates = py_slice game_dates (Some mid_start) (Some mid_end);
               mid_df = filter (\<lambda>r. game_date r \<in> set mid_dates) df;
               late_dates = py_slice game_dates (Some (- 10)) None;
               late_df = filter (\<lambda>r. game_date r \<in> set late_dates) df
           in Inr (early_df, mid_df, late_df))"

subsection \<open>Module B: the metric aggregator\<close>

text \<open>Sequencing of computations that may fail: the first failure is the result.\<close>

definition and_then :: "error + 'a \<Rightarrow> ('a \<Rightarrow> error + 'b) \<Rightarrow> error + 'b" where
  "and_then r f = (case r of Inl e \<Rightarrow> Inl e | Inr x \<Rightarrow> f x)"

text \<open>
  The conditional expression \<open>X if c else None\<close>: \<open>X\<close> is evaluated only when \<open>c\<close>
  holds.
\<close>

definition if_else_None :: "bool \<Rightarrow> error + 'a \<Rightarrow> error + 'a option" where
  "if_else_None c x = (if c then and_then x (\<lambda>v. Inr (Some v)) else Inr None)"

text \<open>True division \<open>a / b\<close>.\<close>

definition truediv :: "rat \<Rightarrow> rat \<Rightarrow> error + rat" where
  "truediv a b = (if b = 0 then Inl ZeroDivisionError else Inr (a / b))"

text \<open>\<open>Series.mean()\<close> and \<open>Series.max()\<close> of a series without nulls.\<close>

definition series_mean :: "rat list \<Rightarrow> error + rat" where
  "series_mean xs =
     (if xs = [] then Inl EmptySeries else Inr (sum_list xs / of_nat (length xs)))"

definition series_max :: "rat list \<Rightarrow> error + rat" where
  "series_max xs = (case xs of [] \<Rightarrow> Inl EmptySeries | x # r \<Rightarrow> Inr (fold max r x))"

text \<open>\<open>round(x, ndigits)\<close>: to the nearest multiple of \<open>10 ^ - ndigits\<close>, a tie to the even one.\<close>

definition round_half_even :: "rat \<Rightarrow> int" where
  "round_half_even x =
     (let f = \<lfloor>x\<rfloor>; r = x - of_int f
      in if r < 1 / 2 then f else if 1 / 2 < r then f + 1
         else if even f then f else f + 1)"

definition py_round :: "rat \<Rightarrow> nat \<Rightarrow> rat" where
  "py_round x ndigits = of_int (round_half_even (x * 10 ^ ndigits)) / 10 ^ ndigits"

definition rounded :: "error + rat \<Rightarrow> nat \<Rightarrow> error + rat" where
  "rounded r ndigits = and_then r (\<lambda>x. Inr (py_round x ndigits))"

text \<open>\<open>(s == v).sum()\<close> and \<open>s.isin(vs).sum()\<close> of a series \<open>s\<close>.\<close>

definition count_eq :: "'a list \<Rightarrow> 'a \<Rightarrow> int" where
  "count_eq s v = int (length (filter (\<lambda>x. x = v) s))"

definition count_isin :: "'a list \<Rightarrow> 'a list \<Rightarrow> int" where
  "count_isin s vs = int (length (filter (\<lambda>x. x \<in> set vs) s))"

text \<open>\<open>len(df[df[col].isin(vs)])\<close> for a nullable column: a null cell is in no list.\<close>

definition len_isin :: "'a option list \<Rightarrow> 'a list \<Rightarrow> int" where
  "len_isin col vs = int (length (filter (\<lambda>c. c \<in> Some ` set vs) col))"

definition woba_weights :: "(string \<times> rat) list" where
  "woba_weights =
     [(''walk'', 690 / 1000), (''hit_by_pitch'', 722 / 1000), (''single'', 883 / 1000),
      (''double'', 1244 / 1000), (''triple'', 1569 / 1000), (''home_run'', 2015 / 1000)]"

record metrics =
  segment :: string
  games :: int
  plate_appearances :: int
  avg_launch_speed :: "rat option"
  avg_launch_angle :: "rat option"
  hard_hit_rate :: "rat option"
  whiff_rate :: "rat option"
  max_hit_distance :: "rat option"
  avg_pitcher_spin :: "rat option"
  home_runs :: int
  walks :: int
  bb_rate :: "rat option"
  strikeouts :: int
  k_rate :: "rat option"
  babip :: "rat option"
  woba :: "rat option"

text \<open>
  The pure quantities are bound first, then the guarded quotients are evaluated in the
  order of the source, so that the first failure is the one the source would meet.
\<close>

definition aggregate_metrics :: "'a event_scheme list \<Rightarrow> string \<Rightarrow> error + metrics" where
  "aggregate_metrics segment_df segment_name =
     (let df = segment_df;
          valid_launch = dropna (map launch_speed df);
          valid_angle = dropna (map launch_angle df);
          hard_hits = int (length (filter (\<lambda>v. 95 < v) valid_launch));
          total_swings = len_isin (map description df)
            [''swinging_strike'', ''swinging_strike_blocked'',
             ''foul'', ''foul_tip'', ''hit_into_play''];
          swinging_strikes = len_isin (map description df)
            [''swinging_strike'', ''swinging_strike_blocked''];
          valid_distance = dropna (map hit_distance_sc df);
          valid_spin = dropna (map release_spin_rate df);
          events = dropna (map events df);
          total_events = int (length events);
          home_runs = count_eq events ''home_run'';
          walks = count_eq events ''walk'';
          strikeouts = count_eq events ''strikeout'';
          hits = count_isin events [''single'', ''double'', ''triple'', ''home_run''];
          at_bats = count_isin events
            [''single'', ''double'', ''triple'', ''home_run'',
             ''field_out'', ''strikeout'', ''double_play'',
             ''grounded_into_double_play'', ''force_out'',
             ''fielders_choice'', ''fielders_choice_out''];
          sac_flies = count_eq events ''sac_fly'';
          babip_numerator = hits - home_runs;
          babip_denominator = at_bats - strikeouts - home_runs + sac_flies;
          woba_numerator =
            fold (\<lambda>(event, weight) acc. acc + of_int (count_eq events event) * weight)
              woba_weights 0;
          woba_denominator = at_bats + walks + count_eq events ''hit_by_pitch'' + sac_flies
      in
      and_then (if_else_None (0 < length valid_launch)
        (rounded (series_mean valid_launch) 2)) (\<lambda>avg_launch_speed.
      and_then (if_else_None (0 < length valid_angle)
        (rounded (series_mean valid_angle) 2)) (\<lambda>avg_launch_angle.
      and_then (if_else_None (0 < length valid_launch)
        (rounded (and_then (truediv (of_int hard_hits) (of_nat (length valid_launch)))
           (\<lambda>q. Inr (q * 100))) 2)) (\<lambda>hard_hit_rate.
      and_then (if_else_None (0 < total_swings)
        (rounded (and_then (truediv (of_int swinging_strikes) (of_int total_swings))
           (\<lambda>q. Inr (q * 100))) 2)) (\<lambda>whiff_rate.
      and_then (if_else_None (0 < length valid_distance)
        (rounded (series_max valid_distance) 2)) (\<lambda>max_hit_distance.
      and_then (if_else_None (0 < length valid_spin)
        (rounded (series_mean valid_spin) 2)) (\<lambda>avg_pitcher_spin.
      and_then (if_else_None (0 < total_events)
        (rounded (and_then (truediv (of_int walks) (of_int total_events))
           (\<lambda>q. Inr (q * 100))) 2)) (\<lambda>bb_rate.
      and_then (if_else_None (0 < total_events)
        (rounded (and_then (truediv (of_int strikeouts) (of_int total_events))
           (\<lambda>q. Inr (q * 100))) 2)) (\<lambda>k_rate.
      and_then (if_else_None (0 < babip_denominator)
        (rounded (truediv (of_int babip_numerator) (of_int babip_denominator)) 3)) (\<lambda>babip.
      and_then (if_else_None (0 < woba_denominator)
        (rounded (truediv woba_numerator (of_int woba_denominator)) 3)) (\<lambda>woba.
      Inr \<lparr>segment = segment_name,
           games = int (nunique (map game_date df)),
           plate_appearances = int (length (filter (\<lambda>r. event.events r \<noteq> None) df)),
           avg_launch_speed = avg_launch_speed,
           avg_launch_angle = avg_launch_angle,
           hard_hit_rate = hard_hit_rate,
           whiff_rate = whiff_rate,
           max_hit_distance = max_hit_distance,
           avg_pitcher_spin = avg_pitcher_spin,
           home_runs = home_runs,
           walks = walks,
           bb_rate = bb_rate,
           strikeouts = strikeouts,
           k_rate = k_rate,
           babip = babip,
           woba = woba\<rparr>)))))))))))"

subsection \<open>The trend classifier\<close>

text \<open>\<open>_calculate_trend\<close>; the middle value is a parameter the body never reads.\<close>

definition calculate_trend :: "rat option \<Rightarrow> rat option \<Rightarrow> rat option \<Rightarrow> string" where
  "calculate_trend early_val mid_val late_val =
     (if early_val = None \<or> late_val = None then ''insufficient_data''
      else
        let diff = the late_val - the early_val
        in if \<bar>diff\<bar> < 1 then ''stable''
           else if 0 < diff then ''increasing''
           else ''decreasing'')"

subsection \<open>The diagnosis assembler\<close>

record segments =
  early :: metrics
  mid :: metrics
  late :: metrics

text \<open>
  The summary is a dictionary whose values are an integer or a label; it is kept as the
  list of its items in the order of the dictionary display.
\<close>

datatype summary_value = Count int | Label string

record diagnosis =
  player_name :: string
  analysis_segments :: segments
  summary :: "(string \<times> summary_value) list"

definition build_diagnosis_json ::
  "string \<Rightarrow> metrics \<Rightarrow> metrics \<Rightarrow> metrics \<Rightarrow> diagnosis"
where
  "build_diagnosis_json player early_metrics mid_metrics late_metrics =
     \<lparr>player_name = player,
      analysis_segments =
        \<lparr>early = early_metrics, mid = mid_metrics, late = late_metrics\<rparr>,
      summary =
        [(''total_games_analyzed'',
            Count (games early_metrics + games mid_metrics + games late_metrics)),
         (''launch_speed_trend'',
            Label (calculate_trend (avg_launch_speed early_metrics)
                     (avg_launch_speed mid_metrics) (avg_launch_speed late_metrics))),
         (''hard_hit_trend'',
            Label (calculate_trend (hard_hit_rate early_metrics)
                     (hard_hit_rate mid_metrics) (hard_hit_rate late_metrics))),
         (''k_rate_trend'',
            Label (calculate_trend (k_rate early_metrics)
                     (k_rate mid_metrics) (k_rate late_metrics)))]\<rparr>"

subsection \<open>The analysis pipeline\<close>

definition early_name :: string where
  "early_name = ''Early ('' @ [CHR 0xE5, CHR 0x89, CHR 0x8D] @ ''10''
                  @ [CHR 0xE5, CHR 0xA0, CHR 0xB4] @ '')''"

definition mid_name :: string where
  "mid_name = ''Mid ('' @ [CHR 0xE5, CHR 0xAD, CHR 0xA3, CHR 0xE4, CHR 0xB8, CHR 0xAD] @ ''10''
                @ [CHR 0xE5, CHR 0xA0, CHR 0xB4] @ '')''"

definition late_name :: string where
  "late_name = ''Late ('' @ [CHR 0xE6, CHR 0x9C, CHR 0x80, CHR 0xE5, CHR 0xBE, CHR 0x8C] @ ''10''
                 @ [CHR 0xE5, CHR 0xA0, CHR 0xB4] @ '')''"

text \<open>
  Steps 3 to 5 of \<open>get_full_analysis\<close>. Steps 1 and 2 ask the statistics provider for
  the player and the season's rows; their result, the frame \<open>df\<close>, is a parameter here.
\<close>

definition get_full_analysis :: "string \<Rightarrow> string \<Rightarrow> event list \<Rightarrow> error + diagnosis" where
  "get_full_analysis last_name first_name df =
     (let player_name = first_name @ '' '' @ last_name
      in and_then (slice_by_game_index df) (\<lambda>(early_df, mid_df, late_df).
         and_then (aggregate_metrics early_df early_name) (\<lambda>early_metrics.
         and_then (aggregate_metrics mid_df mid_name) (\<lambda>mid_metrics.
         and_then (aggregate_metrics late_df late_name) (\<lambda>late_metrics.
         Inr (build_diagnosis_json player_name early_metrics mid_metrics late_metrics))))))"

subsection \<open>Example streams\<close>

text \<open>A pitch with no measurement on the given day, and a plate appearance ending in an event.\<close>

definition pitch :: "int \<Rightarrow> event" where
  "pitch d =
     \<lparr>game_date = d, events = None, description = None, launch_speed = None,
      launch_angle = None, hit_distance_sc = None, release_spin_rate = None\<rparr>"

definition plate_appearance :: "int \<Rightarrow> string \<Rightarrow> event" where
  "plate_appearance d e = (pitch d)\<lparr>events := Some e\<rparr>"

text \<open>A season of \<open>k\<close> game days, one pitch a day, listed latest day first.\<close>

definition season :: "nat \<Rightarrow> event list" where
  "season k = map (\<lambda>d. pitch (int d)) (rev [0..<k])"

subsection \<open>Notation for the statements\<close>

text \<open>
  The distinct game dates of a frame, and the rank of a date among them: the number of
  distinct dates before it, which is its index in the sorted list of the distinct dates.
\<close>

abbreviation dates :: "'a event_scheme list \<Rightarrow> int set" where
  "dates df \<equiv> game_date ` set df"

abbreviation date_rank :: "'a event_scheme list \<Rightarrow> int \<Rightarrow> nat" where
  "date_rank df d \<equiv> card {e \<in> dates df. e < d}"

section \<open>Properties of the slicer\<close>

subsection \<open>The pandas primitives\<close>

lemma set_drop_duplicates: "set (drop_duplicates xs) = set xs"
  by (simp add: drop_duplicates_def)

lemma distinct_drop_duplicates: "distinct (drop_duplicates xs)"
  by (simp add: drop_duplicates_def)

lemma nunique_card: "nunique xs = card (set xs)"
  by (metis nunique_def distinct_card distinct_drop_duplicates set_drop_duplicates)

lemma game_dates_sorted_list:
  "sort (drop_duplicates (xs :: int list)) = sorted_list_of_set (set xs)"
proof (rule sorted_distinct_set_unique)
  show "sorted (sort (drop_duplicates xs))" by simp
  show "distinct (sort (drop_duplicates xs))" by (simp add: distinct_drop_duplicates)
  show "sorted (sorted_list_of_set (set xs))" by simp
  show "distinct (sorted_list_of_set (set xs))" by simp
  show "set (sort (drop_duplicates xs)) = set (sorted_list_of_set (set xs))"
    by (simp add: set_drop_duplicates)
qed

lemma py_slice_window:
  assumes "0 \<le> i" "i \<le> j" "j \<le> int (length xs)"
  shows "py_slice xs (Some i) (Some j) = take (nat (j - i)) (drop (nat i) xs)"
  using assms by (simp add: py_slice_def Let_def min_def)

lemma py_slice_last:
  assumes "k \<le> length xs" "0 < k"
  shows "py_slice xs (Some (- int k)) None = take k (drop (length xs - k) xs)"
  using assms by (simp add: py_slice_def Let_def max_def nat_diff_distrib')

text \<open>The rank of a date in a sorted list without duplicates is its index.\<close>

lemma rank_nth:
  fixes xs :: "int list"
  assumes "sorted xs" "distinct xs" "i < length xs"
  shows "card {d \<in> set xs. d < xs ! i} = i"
proof -
  have ss: "sorted_wrt (<) xs" using assms by (simp add: strict_sorted_iff)
  have "{d \<in> set xs. d < xs ! i} = set (take i xs)"
  proof (intro set_eqI iffI)
    fix d assume "d \<in> {d \<in> set xs. d < xs ! i}"
    then obtain j where j: "j < length xs" "d = xs ! j" "xs ! j < xs ! i"
      by (auto simp: in_set_conv_nth)
    have "j < i"
    proof (rule ccontr)
      assume "\<not> j < i"
      then have "i = j \<or> i < j" by arith
      then show False
        using j sorted_wrt_nth_less [OF ss, of i j] by auto
    qed
    then show "d \<in> set (take i xs)"
      using j assms(3) by (auto simp: in_set_conv_nth intro!: exI [of _ j])
  next
    fix d assume "d \<in> set (take i xs)"
    then obtain j where j: "j < i" "d = xs ! j"
      using assms(3) by (auto simp: in_set_conv_nth)
    then show "d \<in> {d \<in> set xs. d < xs ! i}"
      using sorted_wrt_nth_less [OF ss, of j i] assms(3) by auto
  qed
  moreover have "card (set (take i xs)) = i"
    using assms by (simp add: distinct_card)
  ultimately show ?thesis by simp
qed

lemma set_take_drop_rank:
  fixes xs :: "int list"
  assumes "sorted xs" "distinct xs"
  shows "set (take k (drop j xs)) =
         {d \<in> set xs. j \<le> card {e \<in> set xs. e < d} \<and> card {e \<in> set xs. e < d} < j + k}"
proof (intro set_eqI iffI)
  fix d assume "d \<in> set (take k (drop j xs))"
  then obtain i where i: "i < k" "i < length xs - j" "d = xs ! (j + i)"
    by (auto simp: in_set_conv_nth)
  then have "card {e \<in> set xs. e < d} = j + i"
    using rank_nth [OF assms, of "j + i"] by simp
  then show "d \<in> {d \<in> set xs. j \<le> card {e \<in> set xs. e < d} \<and> card {e \<in> set xs. e < d} < j + k}"
    using i by simp
next
  fix d
  assume "d \<in> {d \<in> set xs. j \<le> card {e \<in> set xs. e < d} \<and> card {e \<in> set xs. e < d} < j + k}"
  then obtain i where i: "i < length xs" "d = xs ! i"
    and r: "j \<le> card {e \<in> set xs. e < d}" "card {e \<in> set xs. e < d} < j + k"
    by (auto simp: in_set_conv_nth)
  have "card {e \<in> set xs. e < d} = i"
    using rank_nth [OF assms i(1)] i(2) by simp
  then have "j \<le> i" "i - j < k" "i - j < length xs - j" "d = xs ! (j + (i - j))"
    using r i by auto
  then show "d \<in> set (take k (drop j xs))"
    by (auto simp: in_set_conv_nth intro!: exI [of _ "i - j"])
qed

subsection \<open>The windows of the slicer\<close>

lemma truncate_extend [simp]: "event.truncate (event.extend r (indexed_event.fields g)) = r"
  by (cases r) (simp add: event.defs indexed_event.defs)

lemma game_date_extend [simp]: "game_date (event.extend r m) = game_date r"
  by (simp add: event.defs)

lemma truncate_window:
  "map event.truncate (filter (\<lambda>r. game_date r \<in> S) (with_game_index gd df)) =
   filter (\<lambda>r. game_date r \<in> S) df"
  by (induction df) (simp_all add: with_game_index_def)

lemma slice_by_game_index_eq:
  fixes df :: "event list"
  defines "gd \<equiv> sorted_list_of_set (dates df)"
  defines "n \<equiv> card (dates df)"
  shows "slice_by_game_index df =
    (if n < 30 then Inl (ValueError (sample_msg (int n)))
     else Inr
       (filter (\<lambda>r. game_date r \<in> set (take 10 (drop 0 gd))) (with_game_index gd df),
        filter (\<lambda>r. game_date r \<in> set (take 10 (drop (n div 2 - 5) gd))) (with_game_index gd df),
        filter (\<lambda>r. game_date r \<in> set (take 10 (drop (n - 10) gd))) (with_game_index gd df)))"
proof -
  have gd: "sort (drop_duplicates (map game_date df)) = gd"
    by (simp add: gd_def game_dates_sorted_list)
  have len: "length gd = n"
    by (simp add: gd_def n_def)
  show ?thesis
  proof (cases "n < 30")
    case True
    then show ?thesis
      by (simp add: slice_by_game_index_def gd len Let_def)
  next
    case False
    have e: "py_slice gd (Some 0) (Some 10) = take 10 (drop 0 gd)"
      using False py_slice_window [of 0 10 gd] by (simp add: len)
    have "py_slice gd (Some (int n div 2 - 5)) (Some (int n div 2 + 5)) =
          take (nat (int n div 2 + 5 - (int n div 2 - 5))) (drop (nat (int n div 2 - 5)) gd)"
      using False by (intro py_slice_window) (simp_all add: len)
    moreover have "nat (int n div 2 - 5) = n div 2 - 5"
      by (simp add: nat_diff_distrib' nat_div_distrib)
    ultimately have m: "py_slice gd (Some (int n div 2 - 5)) (Some (int n div 2 + 5)) =
          take 10 (drop (n div 2 - 5) gd)"
      by simp
    have l: "py_slice gd (Some (- 10)) None = take 10 (drop (n - 10) gd)"
      using False py_slice_last [of 10 gd] by (simp add: len)
    show ?thesis
      using False by (simp add: slice_by_game_index_def gd len Let_def e m l)
  qed
qed

lemma rank_window:
  fixes df :: "event list"
  shows "filter (\<lambda>r. game_date r \<in> set (take k (drop j (sorted_list_of_set (dates df))))) df =
         filter (\<lambda>r. j \<le> date_rank df (game_date r) \<and> date_rank df (game_date r) < j + k) df"
proof (rule filter_cong [OF refl])
  fix r assume "r \<in> set df"
  then have "game_date r \<in> set (sorted_list_of_set (dates df))" by simp
  then show "(game_date r \<in> set (take k (drop j (sorted_list_of_set (dates df))))) =
        (j \<le> date_rank df (game_date r) \<and> date_rank df (game_date r) < j + k)"
    using set_take_drop_rank [of "sorted_list_of_set (dates df)" k j] by simp
qed

text \<open>The number of later dates, from the number of earlier ones.\<close>

lemma later_dates:
  assumes "d \<in> dates df"
  shows "card {e \<in> dates df. d < e} + date_rank df d + 1 = card (dates df)"
proof -
  let ?D = "dates df"
  have fin: "finite ?D" by simp
  have eq: "?D = {e \<in> ?D. d < e} \<union> ({e \<in> ?D. e < d} \<union> {d})" using assms by auto
  have "card ?D = card ({e \<in> ?D. d < e} \<union> ({e \<in> ?D. e < d} \<union> {d}))"
    using arg_cong [OF eq, of card] .
  also have "\<dots> = card {e \<in> ?D. d < e} + card ({e \<in> ?D. e < d} \<union> {d})"
    by (rule card_Un_disjoint) auto
  also have "card ({e \<in> ?D. e < d} \<union> {d}) = card {e \<in> ?D. e < d} + 1"
    by simp
  finally show ?thesis by simp
qed

lemma slice_by_game_index_windows:
  fixes df :: "event list"
  assumes "30 \<le> card (dates df)"
  shows "\<exists>early_df mid_df late_df.
    slice_by_game_index df = Inr (early_df, mid_df, late_df) \<and>
    map event.truncate early_df = filter (\<lambda>r. date_rank df (game_date r) < 10) df \<and>
    map event.truncate mid_df =
      filter (\<lambda>r. card (dates df) div 2 - 5 \<le> date_rank df (game_date r) \<and>
                  date_rank df (game_date r) < card (dates df) div 2 + 5) df \<and>
    map event.truncate late_df =
      filter (\<lambda>r. card (dates df) - 10 \<le> date_rank df (game_date r)) df"
proof -
  let ?n = "card (dates df)"
  let ?gd = "sorted_list_of_set (dates df)"
  have rank_lt: "date_rank df (game_date r) < ?n" if "r \<in> set df" for r
    using later_dates [of "game_date r" df] that by simp
  have e: "filter (\<lambda>r. game_date r \<in> set (take 10 (drop 0 ?gd))) df =
           filter (\<lambda>r. date_rank df (game_date r) < 10) df"
    by (simp only: rank_window) simp
  have m: "filter (\<lambda>r. game_date r \<in> set (take 10 (drop (?n div 2 - 5) ?gd))) df =
           filter (\<lambda>r. ?n div 2 - 5 \<le> date_rank df (game_date r) \<and>
                       date_rank df (game_date r) < ?n div 2 + 5) df"
    using assms by (simp only: rank_window) (rule filter_cong, auto)
  have l: "filter (\<lambda>r. game_date r \<in> set (take 10 (drop (?n - 10) ?gd))) df =
           filter (\<lambda>r. ?n - 10 \<le> date_rank df (game_date r)) df"
    using assms rank_lt by (simp only: rank_window) (rule filter_cong, auto)
  have "slice_by_game_index df = Inr
       (filter (\<lambda>r. game_date r \<in> set (take 10 (drop 0 ?gd))) (with_game_index ?gd df),
        filter (\<lambda>r. game_date r \<in> set (take 10 (drop (?n div 2 - 5) ?gd))) (with_game_index ?gd df),
        filter (\<lambda>r. game_date r \<in> set (take 10 (drop (?n - 10) ?gd))) (with_game_index ?gd df))"
    using assms by (simp only: slice_by_game_index_eq) simp
  then show ?thesis
    by (intro exI conjI) (assumption, simp_all only: truncate_window e m l)
qed

lemma game_date_truncate [simp]: "game_date (event.truncate r) = game_date r"
  by (simp add: event.defs)

lemma dates_truncate: "dates (map event.truncate w) = dates w"
  by (simp add: image_image)

lemma dates_of_window:
  assumes "map event.truncate w = filter (\<lambda>r. P (game_date r)) df"
  shows "dates w = {d \<in> dates df. P d}"
proof -
  have "dates w = dates (filter (\<lambda>r. P (game_date r)) df)"
    using dates_truncate [of w] assms by simp
  then show ?thesis by auto
qed

lemma card_rank_window:
  fixes df :: "event list"
  assumes "j + k \<le> card (dates df)"
  shows "card {d \<in> dates df. j \<le> date_rank df d \<and> date_rank df d < j + k} = k"
proof -
  let ?gd = "sorted_list_of_set (dates df)"
  have "{d \<in> dates df. j \<le> date_rank df d \<and> date_rank df d < j + k} = set (take k (drop j ?gd))"
    using set_take_drop_rank [of ?gd k j] by simp
  moreover have "card (set (take k (drop j ?gd))) = length (take k (drop j ?gd))"
    by (intro distinct_card distinct_take distinct_drop) simp
  moreover have "length (take k (drop j ?gd)) = k"
    using assms by simp
  ultimately show ?thesis by simp
qed

subsection \<open>The example seasons\<close>

lemma dates_season: "dates (season k) = int ` {0..<k}"
  by (auto simp: season_def pitch_def image_iff)

lemma card_dates_season: "card (dates (season k)) = k"
  by (simp add: dates_season card_image)

subsection \<open>The sample precondition\<close>

text \<open>
  Claim C1. With \<open>n\<close> the number of distinct game dates of the stream: when \<open>n < 30\<close>
  the slicer raises the \<open>ValueError\<close> whose message holds the decimal digits of \<open>n\<close>
  and the minimum \<open>30\<close>; when \<open>30 \<le> n\<close> it raises nothing and returns its windows.
\<close>

theorem slicer_sample_precondition:
  fixes df :: "event list"
  shows
  "(card (dates df) < 30 \<longrightarrow>
      slice_by_game_index df =
        Inl (ValueError (sample_msg_head @ digits (card (dates df)) @ sample_msg_mid
                          @ ''30'' @ sample_msg_end))) \<and>
   (30 \<le> card (dates df) \<longrightarrow> (\<exists>w. slice_by_game_index df = Inr w))"
  by (simp add: slice_by_game_index_eq sample_msg_def str_int_def)

theorem slicer_sample_precondition_witness:
  "card (dates (season 29)) < 30 \<and>
   slice_by_game_index (season 29) =
     Inl (ValueError (sample_msg_head @ ''29'' @ sample_msg_mid @ ''30'' @ sample_msg_end)) \<and>
   30 \<le> card (dates (season 30)) \<and>
   (\<exists>w. slice_by_game_index (season 30) = Inr w)"
proof -
  have d: "digits 29 = ''29''" by code_simp
  show ?thesis
    using slicer_sample_precondition [of "season 29"] slicer_sample_precondition [of "season 30"]
    by (simp add: card_dates_season d)
qed

subsection \<open>The Early and Late windows\<close>

text \<open>
  Claim C2. For a stream with at least 30 distinct game dates the slicer returns its
  windows; the rows of the Early window, without the \<open>game_index\<close> column, are exactly
  the rows of the stream whose date has fewer than 10 distinct dates before it (the 10
  earliest dates), in stream order; the rows of the Late window are exactly those whose
  date has fewer than 10 distinct dates after it (the 10 latest dates); and no date is
  in both windows. (The slicer returns windows only from 30 dates on, so the bound of
  20 dates for the disjointness is met whenever there are windows.)
\<close>

theorem slicer_early_late_windows:
  fixes df :: "event list"
  assumes "30 \<le> card (dates df)"
  shows "\<exists>early_df mid_df late_df.
    slice_by_game_index df = Inr (early_df, mid_df, late_df) \<and>
    map event.truncate early_df =
      filter (\<lambda>r. card {d \<in> dates df. d < game_date r} < 10) df \<and>
    map event.truncate late_df =
      filter (\<lambda>r. card {d \<in> dates df. game_date r < d} < 10) df \<and>
    dates early_df \<inter> dates late_df = {}"
proof -
  let ?n = "card (dates df)"
  obtain early_df mid_df late_df where
    s: "slice_by_game_index df = Inr (early_df, mid_df, late_df)" and
    e: "map event.truncate early_df = filter (\<lambda>r. date_rank df (game_date r) < 10) df" and
    l: "map event.truncate late_df = filter (\<lambda>r. ?n - 10 \<le> date_rank df (game_date r)) df"
    using slice_by_game_index_windows [OF assms] by blast
  have "filter (\<lambda>r. ?n - 10 \<le> date_rank df (game_date r)) df =
        filter (\<lambda>r. card {d \<in> dates df. game_date r < d} < 10) df"
  proof (rule filter_cong [OF refl])
    fix r assume "r \<in> set df"
    then have "card {d \<in> dates df. game_date r < d} + date_rank df (game_date r) + 1 = ?n"
      by (intro later_dates) simp
    then show "(?n - 10 \<le> date_rank df (game_date r)) =
               (card {d \<in> dates df. game_date r < d} < 10)"
      using assms by arith
  qed
  then have l': "map event.truncate late_df =
      filter (\<lambda>r. card {d \<in> dates df. game_date r < d} < 10) df"
    using l by simp
  have "dates early_df = {d \<in> dates df. date_rank df d < 10}"
    using e by (rule dates_of_window)
  moreover have "dates late_df = {d \<in> dates df. ?n - 10 \<le> date_rank df d}"
    using l by (rule dates_of_window)
  ultimately have "dates early_df \<inter> dates late_df = {}"
    using assms by auto
  then show ?thesis
    using s e l' by blast
qed

theorem slicer_early_late_windows_witness:
  "30 \<le> card (dates (season 30)) \<and>
   (\<exists>early_df mid_df late_df.
      slice_by_game_index (season 30) = Inr (early_df, mid_df, late_df) \<and>
      map event.truncate early_df = map pitch [9, 8, 7, 6, 5, 4, 3, 2, 1, 0] \<and>
      map event.truncate late_df = map pitch [29, 28, 27, 26, 25, 24, 23, 22, 21, 20] \<and>
      dates early_df \<inter> dates late_df = {})"
proof -
  have h: "30 \<le> card (dates (season 30))"
    by (simp add: card_dates_season)
  have e: "filter (\<lambda>r. card {d \<in> dates (season 30). d < game_date r} < 10) (season 30) =
           map pitch [9, 8, 7, 6, 5, 4, 3, 2, 1, 0]"
    by code_simp
  have l: "filter (\<lambda>r. card {d \<in> dates (season 30). game_date r < d} < 10) (season 30) =
           map pitch [29, 28, 27, 26, 25, 24, 23, 22, 21, 20]"
    by code_simp
  show ?thesis
    using slicer_early_late_windows [OF h] h unfolding e l by blast
qed

subsection \<open>The Mid window\<close>

text \<open>
  Claim C3. For a stream with \<open>n \<ge> 30\<close> distinct game dates the rows of the Mid window,
  without the \<open>game_index\<close> column, are exactly the rows of the stream whose date has
  its index in the sorted distinct dates (its rank) in the half-open range from
  \<open>n div 2 - 5\<close> to \<open>n div 2 + 5\<close>; the range is 10 to 20 for \<open>n = 30\<close> and for
  \<open>n = 31\<close>, and 17 to 27 for \<open>n = 45\<close>.
\<close>

theorem slicer_mid_window:
  fixes df :: "event list"
  assumes "30 \<le> card (dates df)"
  shows "\<exists>early_df mid_df late_df.
    slice_by_game_index df = Inr (early_df, mid_df, late_df) \<and>
    map event.truncate mid_df =
      filter (\<lambda>r. card (dates df) div 2 - 5 \<le> card {d \<in> dates df. d < game_date r} \<and>
                  card {d \<in> dates df. d < game_date r} < card (dates df) div 2 + 5) df \<and>
    (card (dates df) = 30 \<longrightarrow> map event.truncate mid_df =
       filter (\<lambda>r. card {d \<in> dates df. d < game_date r} \<in> {10..<20}) df) \<and>
    (card (dates df) = 31 \<longrightarrow> map event.truncate mid_df =
       filter (\<lambda>r. card {d \<in> dates df. d < game_date r} \<in> {10..<20}) df) \<and>
    (card (dates df) = 45 \<longrightarrow> map event.truncate mid_df =
       filter (\<lambda>r. card {d \<in> dates df. d < game_date r} \<in> {17..<27}) df)"
proof -
  obtain early_df mid_df late_df where
    s: "slice_by_game_index df = Inr (early_df, mid_df, late_df)" and
    m: "map event.truncate mid_df =
      filter (\<lambda>r. card (dates df) div 2 - 5 \<le> date_rank df (game_date r) \<and>
                  date_rank df (game_date r) < card (dates df) div 2 + 5) df"
    using slice_by_game_index_windows [OF assms] by blast
  have "card (dates df) = 30 \<longrightarrow> map event.truncate mid_df =
       filter (\<lambda>r. date_rank df (game_date r) \<in> {10..<20}) df"
    using m by simp
  moreover have "card (dates df) = 31 \<longrightarrow> map event.truncate mid_df =
       filter (\<lambda>r. date_rank df (game_date r) \<in> {10..<20}) df"
    using m by simp
  moreover have "card (dates df) = 45 \<longrightarrow> map event.truncate mid_df =
       filter (\<lambda>r. date_rank df (game_date r) \<in> {17..<27}) df"
    using m by simp
  ultimately show ?thesis
    using s m by blast
qed

theorem slicer_mid_window_witness:
  "30 \<le> card (dates (season 30)) \<and> card (dates (season 30)) = 30 \<and>
   (\<exists>early_df mid_df late_df.
      slice_by_game_index (season 30) = Inr (early_df, mid_df, late_df) \<and>
      map event.truncate mid_df = map pitch [19, 18, 17, 16, 15, 14, 13, 12, 11, 10]) \<and>
   30 \<le> card (dates (season 31)) \<and> card (dates (season 31)) = 31 \<and>
   (\<exists>early_df mid_df late_df.
      slice_by_game_index (season 31) = Inr (early_df, mid_df, late_df) \<and>
      map event.truncate mid_df = map pitch [19, 18, 17, 16, 15, 14, 13, 12, 11, 10]) \<and>
   30 \<le> card (dates (season 45)) \<and> card (dates (season 45)) = 45 \<and>
   (\<exists>early_df mid_df late_df.
      slice_by_game_index (season 45) = Inr (early_df, mid_df, late_df) \<and>
      map event.truncate mid_df = map pitch [26, 25, 24, 23, 22, 21, 20, 19, 18, 17])"
proof -
  have c: "card (dates (season 30)) = 30" "card (dates (season 31)) = 31"
    "card (dates (season 45)) = 45"
    by (simp_all add: card_dates_season)
  have h: "30 \<le> card (dates (season 30))" "30 \<le> card (dates (season 31))"
    "30 \<le> card (dates (season 45))"
    by (simp_all add: card_dates_season)
  have m30: "filter (\<lambda>r. card {d \<in> dates (season 30). d < game_date r} \<in> {10..<20}) (season 30) =
             map pitch [19, 18, 17, 16, 15, 14, 13, 12, 11, 10]"
    by code_simp
  have m31: "filter (\<lambda>r. card {d \<in> dates (season 31). d < game_date r} \<in> {10..<20}) (season 31) =
             map pitch [19, 18, 17, 16, 15, 14, 13, 12, 11, 10]"
    by code_simp
  have m45: "filter (\<lambda>r. card {d \<in> dates (season 45). d < game_date r} \<in> {17..<27}) (season 45) =
             map pitch [26, 25, 24, 23, 22, 21, 20, 19, 18, 17]"
    by code_simp
  have "\<exists>early_df mid_df late_df.
      slice_by_game_index (season 30) = Inr (early_df, mid_df, late_df) \<and>
      map event.truncate mid_df = map pitch [19, 18, 17, 16, 15, 14, 13, 12, 11, 10]"
    using slicer_mid_window [OF h(1)] c(1) unfolding m30 by blast
  moreover have "\<exists>early_df mid_df late_df.
      slice_by_game_index (season 31) = Inr (early_df, mid_df, late_df) \<and>
      map event.truncate mid_df = map pitch [19, 18, 17, 16, 15, 14, 13, 12, 11, 10]"
    using slicer_mid_window [OF h(2)] c(2) unfolding m31 by blast
  moreover have "\<exists>early_df mid_df late_df.
      slice_by_game_index (season 45) = Inr (early_df, mid_df, late_df) \<and>
      map event.truncate mid_df = map pitch [26, 25, 24, 23, 22, 21, 20, 19, 18, 17]"
    using slicer_mid_window [OF h(3)] c(3) unfolding m45 by blast
  ultimately show ?thesis
    using c h by blast
qed

subsection \<open>The windows of a season of exactly 30 dates\<close>

text \<open>
  Claim C7 as stated fails: in a season of the 30 dates 0 to 29 the Mid window holds
  the dates at the indices 10 to 19 only; the date at index 20 is in the Late window
  and not in the Mid window, and the two windows share no date.
\<close>

theorem slicer_mid_late_overlap_counterexample:
  "\<not> isl (slice_by_game_index (season 30)) \<and>
   card (dates (season 30)) = 30 \<and>
   map game_date (fst (snd (projr (slice_by_game_index (season 30))))) =
     [19, 18, 17, 16, 15, 14, 13, 12, 11, 10] \<and>
   map game_date (snd (snd (projr (slice_by_game_index (season 30))))) =
     [29, 28, 27, 26, 25, 24, 23, 22, 21, 20] \<and>
   sorted_list_of_set (dates (season 30)) ! 20 = 20 \<and>
   sorted_list_of_set (dates (season 30)) ! 20
     \<notin> dates (fst (snd (projr (slice_by_game_index (season 30))))) \<and>
   dates (fst (snd (projr (slice_by_game_index (season 30)))))
     \<inter> dates (snd (snd (projr (slice_by_game_index (season 30))))) = {}"
  by code_simp

text \<open>
  Claim C7, amended. For a stream with exactly 30 distinct game dates the Early window
  covers the sorted-date indices 0 to 9, the Mid window the indices 10 to 19 and the
  Late window the indices 20 to 29; the Mid window shares no date with the Early or
  the Late window.
\<close>

theorem slicer_windows_of_30:
  fixes df :: "event list"
  assumes "card (dates df) = 30"
  shows "\<exists>early_df mid_df late_df.
    slice_by_game_index df = Inr (early_df, mid_df, late_df) \<and>
    map event.truncate early_df =
      filter (\<lambda>r. card {d \<in> dates df. d < game_date r} \<in> {0..<10}) df \<and>
    map event.truncate mid_df =
      filter (\<lambda>r. card {d \<in> dates df. d < game_date r} \<in> {10..<20}) df \<and>
    map event.truncate late_df =
      filter (\<lambda>r. card {d \<in> dates df. d < game_date r} \<in> {20..<30}) df \<and>
    dates early_df \<inter> dates mid_df = {} \<and>
    dates mid_df \<inter> dates late_df = {}"
proof -
  have h: "30 \<le> card (dates df)" using assms by simp
  have rank_lt: "date_rank df (game_date r) < 30" if "r \<in> set df" for r
    using later_dates [of "game_date r" df] that assms by simp
  obtain early_df mid_df late_df where
    s: "slice_by_game_index df = Inr (early_df, mid_df, late_df)" and
    e: "map event.truncate early_df = filter (\<lambda>r. date_rank df (game_date r) < 10) df" and
    m: "map event.truncate mid_df =
      filter (\<lambda>r. card (dates df) div 2 - 5 \<le> date_rank df (game_date r) \<and>
                  date_rank df (game_date r) < card (dates df) div 2 + 5) df" and
    l: "map event.truncate late_df =
      filter (\<lambda>r. card (dates df) - 10 \<le> date_rank df (game_date r)) df"
    using slice_by_game_index_windows [OF h] by blast
  have e': "map event.truncate early_df =
      filter (\<lambda>r. date_rank df (game_date r) \<in> {0..<10}) df"
    using e by simp
  have m': "map event.truncate mid_df =
      filter (\<lambda>r. date_rank df (game_date r) \<in> {10..<20}) df"
    using m assms by simp
  have "filter (\<lambda>r. card (dates df) - 10 \<le> date_rank df (game_date r)) df =
        filter (\<lambda>r. date_rank df (game_date r) \<in> {20..<30}) df"
    using rank_lt assms by (intro filter_cong) auto
  then have l': "map event.truncate late_df =
      filter (\<lambda>r. date_rank df (game_date r) \<in> {20..<30}) df"
    using l by simp
  have "dates early_df = {d \<in> dates df. date_rank df d \<in> {0..<10}}"
    using e' by (rule dates_of_window)
  moreover have "dates mid_df = {d \<in> dates df. date_rank df d \<in> {10..<20}}"
    using m' by (rule dates_of_window)
  moreover have "dates late_df = {d \<in> dates df. date_rank df d \<in> {20..<30}}"
    using l' by (rule dates_of_window)
  ultimately have "dates early_df \<inter> dates mid_df = {}" "dates mid_df \<inter> dates late_df = {}"
    by auto
  then show ?thesis
    using s e' m' l' by blast
qed

theorem slicer_windows_of_30_witness:
  "card (dates (season 30)) = 30 \<and>
   (\<exists>early_df mid_df late_df.
      slice_by_game_index (season 30) = Inr (early_df, mid_df, late_df) \<and>
      map event.truncate early_df = map pitch [9, 8, 7, 6, 5, 4, 3, 2, 1, 0] \<and>
      map event.truncate mid_df = map pitch [19, 18, 17, 16, 15, 14, 13, 12, 11, 10] \<and>
      map event.truncate late_df = map pitch [29, 28, 27, 26, 25, 24, 23, 22, 21, 20] \<and>
      dates early_df \<inter> dates mid_df = {} \<and>
      dates mid_df \<inter> dates late_df = {})"
proof -
  have c: "card (dates (season 30)) = 30"
    by (simp add: card_dates_season)
  have e: "filter (\<lambda>r. card {d \<in> dates (season 30). d < game_date r} \<in> {0..<10}) (season 30) =
           map pitch [9, 8, 7, 6, 5, 4, 3, 2, 1, 0]"
    by code_simp
  have m: "filter (\<lambda>r. card {d \<in> dates (season 30). d < game_date r} \<in> {10..<20}) (season 30) =
           map pitch [19, 18, 17, 16, 15, 14, 13, 12, 11, 10]"
    by code_simp
  have l: "filter (\<lambda>r. card {d \<in> dates (season 30). d < game_date r} \<in> {20..<30}) (season 30) =
           map pitch [29, 28, 27, 26, 25, 24, 23, 22, 21, 20]"
    by code_simp
  show ?thesis
    using slicer_windows_of_30 [OF c] c unfolding e m l by blast
qed

section \<open>Properties of the aggregator\<close>

subsection \<open>The guarded quotients\<close>

lemma and_then_Inr [simp]: "and_then (Inr x) f = f x"
  by (simp add: and_then_def)

lemma guarded_mean:
  "if_else_None (0 < length xs) (rounded (series_mean xs) nd) =
   Inr (if xs = [] then None else Some (py_round (sum_list xs / of_nat (length xs)) nd))"
  by (simp add: if_else_None_def rounded_def series_mean_def)

lemma guarded_max:
  "if_else_None (0 < length xs) (rounded (series_max xs) nd) =
   Inr (if xs = [] then None else Some (py_round (fold max (tl xs) (hd xs)) nd))"
  by (cases xs) (simp_all add: if_else_None_def rounded_def series_max_def)

lemma guarded_share:
  "if_else_None (0 < length xs)
     (rounded (and_then (truediv a (of_nat (length xs))) (\<lambda>q. Inr (q * 100))) nd) =
   Inr (if xs = [] then None else Some (py_round (a / of_nat (length xs) * 100) nd))"
  by (simp add: if_else_None_def rounded_def truediv_def)

lemma guarded_rate:
  "if_else_None (0 < d) (rounded (and_then (truediv a (of_int d)) (\<lambda>q. Inr (q * 100))) nd) =
   Inr (if 0 < d then Some (py_round (a / of_int d * 100) nd) else None)"
  by (simp add: if_else_None_def rounded_def truediv_def)

lemma guarded_ratio:
  "if_else_None (0 < d) (rounded (truediv a (of_int d)) nd) =
   Inr (if 0 < d then Some (py_round (a / of_int d) nd) else None)"
  by (simp add: if_else_None_def rounded_def truediv_def)

lemmas guarded = guarded_mean guarded_max guarded_share guarded_rate guarded_ratio

lemma aggregate_metrics_returns: "\<exists>m. aggregate_metrics df name = Inr m"
  by (simp only: aggregate_metrics_def Let_def guarded and_then_Inr) blast

lemma aggregate_metrics_games:
  "aggregate_metrics df name = Inr m \<Longrightarrow> games m = int (card (dates df))"
  by (simp only: aggregate_metrics_def Let_def guarded and_then_Inr) (auto simp: nunique_card)





lemma count_Nil [simp]: "count_eq [] v = 0" "count_isin [] vs = 0"
  by (simp_all add: count_eq_def count_isin_def)






lemma py_round_1 [simp]: "py_round 1 nd = 1"
  by (simp add: py_round_def round_half_even_def)

subsection \<open>BABIP\<close>




subsection \<open>Missing data\<close>



section \<open>Properties of the trend classifier and the assembler\<close>



text \<open>
  Claim C8. In the result of the assembler, \<open>total_games_analyzed\<close> is the sum of the
  three \<open>games\<close> values; the summary holds a trend label under exactly the three keys
  \<open>launch_speed_trend\<close>, \<open>hard_hit_trend\<close> and \<open>k_rate_trend\<close>, each the
  classifier's answer for the Early and Late values of \<open>avg_launch_speed\<close>,
  \<open>hard_hit_rate\<close> and \<open>k_rate\<close>, whatever is passed as the middle value.
\<close>

theorem assembler_summary:
  "map_of (summary (build_diagnosis_json player e m l)) ''total_games_analyzed'' =
     Some (Count (games e + games m + games l)) \<and>
   map_of (summary (build_diagnosis_json player e m l)) ''launch_speed_trend'' =
     Some (Label (calculate_trend (avg_launch_speed e) x (avg_launch_speed l))) \<and>
   map_of (summary (build_diagnosis_json player e m l)) ''hard_hit_trend'' =
     Some (Label (calculate_trend (hard_hit_rate e) y (hard_hit_rate l))) \<and>
   map_of (summary (build_diagnosis_json player e m l)) ''k_rate_trend'' =
     Some (Label (calculate_trend (k_rate e) z (k_rate l))) \<and>
   {k. \<exists>s. map_of (summary (build_diagnosis_json player e m l)) k = Some (Label s)} =
     {''launch_speed_trend'', ''hard_hit_trend'', ''k_rate_trend''} \<and>
   map fst (summary (build_diagnosis_json player e m l)) =
     [''total_games_analyzed'', ''launch_speed_trend'', ''hard_hit_trend'', ''k_rate_trend''] \<and>
   player_name (build_diagnosis_json player e m l) = player \<and>
   analysis_segments (build_diagnosis_json player e m l) = \<lparr>early = e, mid = m, late = l\<rparr>"
proof -
  have t: "calculate_trend a b c = calculate_trend a b' c" for a b b' c
    by (simp add: calculate_trend_def)
  have s: "summary (build_diagnosis_json player e m l) =
        [(''total_games_analyzed'', Count (games e + games m + games l)),
         (''launch_speed_trend'',
            Label (calculate_trend (avg_launch_speed e) x (avg_launch_speed l))),
         (''hard_hit_trend'', Label (calculate_trend (hard_hit_rate e) y (hard_hit_rate l))),
         (''k_rate_trend'', Label (calculate_trend (k_rate e) z (k_rate l)))]"
    using t [of _ "avg_launch_speed m" _ x] t [of _ "hard_hit_rate m" _ y]
      t [of _ "k_rate m" _ z]
    by (simp add: build_diagnosis_json_def)
  have "{k. \<exists>s. map_of (summary (build_diagnosis_json player e m l)) k = Some (Label s)} =
     {''launch_speed_trend'', ''hard_hit_trend'', ''k_rate_trend''}"
    unfolding s by (auto split: if_splits)
  moreover have "player_name (build_diagnosis_json player e m l) = player"
    "analysis_segments (build_diagnosis_json player e m l) = \<lparr>early = e, mid = m, late = l\<rparr>"
    by (simp_all add: build_diagnosis_json_def)
  ultimately show ?thesis
    unfolding s by simp
qed

theorem assembler_summary_witness:
  "map_of (summary (build_diagnosis_json ''Shohei Ohtani''
      (projr (aggregate_metrics [plate_appearance 0 ''single''] ''Early''))
      (projr (aggregate_metrics [plate_appearance 1 ''walk''] ''Mid''))
      (projr (aggregate_metrics [plate_appearance 2 ''strikeout'', pitch 3] ''Late''))))
     ''total_games_analyzed'' = Some (Count 4) \<and>
   map_of (summary (build_diagnosis_json ''Shohei Ohtani''
      (projr (aggregate_metrics [plate_appearance 0 ''single''] ''Early''))
      (projr (aggregate_metrics [plate_appearance 1 ''walk''] ''Mid''))
      (projr (aggregate_metrics [plate_appearance 2 ''strikeout'', pitch 3] ''Late''))))
     ''k_rate_trend'' = Some (Label ''increasing'')"
proof -
  have g: "games (projr (aggregate_metrics [plate_appearance 0 ''single''] ''Early'')) = 1"
    "games (projr (aggregate_metrics [plate_appearance 1 ''walk''] ''Mid'')) = 1"
    "games (projr (aggregate_metrics [plate_appearance 2 ''strikeout'', pitch 3] ''Late'')) = 2"
    "k_rate (projr (aggregate_metrics [plate_appearance 0 ''single''] ''Early'')) = Some 0"
    "k_rate (projr (aggregate_metrics [plate_appearance 2 ''strikeout'', pitch 3] ''Late'')) = Some 100"
    by code_simp+
  have t: "calculate_trend (Some 0) None (Some 100) = ''increasing''"
    by (simp add: calculate_trend_def)
  show ?thesis
    using assembler_summary [of "''Shohei Ohtani''"
      "projr (aggregate_metrics [plate_appearance 0 ''single''] ''Early'')"
      "projr (aggregate_metrics [plate_appearance 1 ''walk''] ''Mid'')"
      "projr (aggregate_metrics [plate_appearance 2 ''strikeout'', pitch 3] ''Late'')"
      None None None]
    by (simp add: g t)
qed

text \<open>
  Claim C9. Classifying again the values that a result of the assembler stores in its
  \<open>early\<close>, \<open>mid\<close> and \<open>late\<close> segments gives, for each of the three tracked
  metrics, the label stored in the result's summary.
\<close>

theorem assembler_round_trip:
  assumes "d = build_diagnosis_json player e m l"
  shows
  "map_of (summary d) ''launch_speed_trend'' =
     Some (Label (calculate_trend (avg_launch_speed (early (analysis_segments d)))
                    (avg_launch_speed (mid (analysis_segments d)))
                    (avg_launch_speed (late (analysis_segments d))))) \<and>
   map_of (summary d) ''hard_hit_trend'' =
     Some (Label (calculate_trend (hard_hit_rate (early (analysis_segments d)))
                    (hard_hit_rate (mid (analysis_segments d)))
                    (hard_hit_rate (late (analysis_segments d))))) \<and>
   map_of (summary d) ''k_rate_trend'' =
     Some (Label (calculate_trend (k_rate (early (analysis_segments d)))
                    (k_rate (mid (analysis_segments d)))
                    (k_rate (late (analysis_segments d)))))"
  using assms by (simp add: build_diagnosis_json_def)

theorem assembler_round_trip_witness:
  "map_of (summary (build_diagnosis_json ''Shohei Ohtani''
      (projr (aggregate_metrics [plate_appearance 0 ''single''] ''Early''))
      (projr (aggregate_metrics [plate_appearance 1 ''walk''] ''Mid''))
      (projr (aggregate_metrics [plate_appearance 2 ''strikeout'', pitch 3] ''Late''))))
     ''k_rate_trend'' =
   Some (Label (calculate_trend
     (k_rate (early (analysis_segments (build_diagnosis_json ''Shohei Ohtani''
      (projr (aggregate_metrics [plate_appearance 0 ''single''] ''Early''))
      (projr (aggregate_metrics [plate_appearance 1 ''walk''] ''Mid''))
      (projr (aggregate_metrics [plate_appearance 2 ''strikeout'', pitch 3] ''Late''))))))
     (k_rate (mid (analysis_segments (build_diagnosis_json ''Shohei Ohtani''
      (projr (aggregate_metrics [plate_appearance 0 ''single''] ''Early''))
      (projr (aggregate_metrics [plate_appearance 1 ''walk''] ''Mid''))
      (projr (aggregate_metrics [plate_appearance 2 ''strikeout'', pitch 3] ''Late''))))))
     (k_rate (late (analysis_segments (build_diagnosis_json ''Shohei Ohtani''
      (projr (aggregate_metrics [plate_appearance 0 ''single''] ''Early''))
      (projr (aggregate_metrics [plate_appearance 1 ''walk''] ''Mid''))
      (projr (aggregate_metrics [plate_appearance 2 ''strikeout'', pitch 3] ''Late''))))))))"
  using assembler_round_trip [OF refl, of "''Shohei Ohtani''"
      "projr (aggregate_metrics [plate_appearance 0 ''single''] ''Early'')"
      "projr (aggregate_metrics [plate_appearance 1 ''walk''] ''Mid'')"
      "projr (aggregate_metrics [plate_appearance 2 ''strikeout'', pitch 3] ''Late'')"]
  by simp

section \<open>Properties of the analysis pipeline\<close>

lemma window_games:
  fixes df :: "event list"
  assumes w: "map event.truncate w = filter (\<lambda>r. j \<le> date_rank df (game_date r) \<and>
                  date_rank df (game_date r) < j + 10) df"
    and j: "j + 10 \<le> card (dates df)"
  shows "card (dates w) = 10"
    and "\<exists>m. aggregate_metrics w name = Inr m \<and> games m = 10"
proof -
  have "dates w = {d \<in> dates df. j \<le> date_rank df d \<and> date_rank df d < j + 10}"
    using w by (rule dates_of_window)
  then show c: "card (dates w) = 10"
    using card_rank_window [OF j] by simp
  obtain m where m: "aggregate_metrics w name = Inr m"
    using aggregate_metrics_returns by blast
  then show "\<exists>m. aggregate_metrics w name = Inr m \<and> games m = 10"
    using aggregate_metrics_games [OF m] c by simp
qed

lemma slice_by_game_index_ten_games:
  fixes df :: "event list"
  assumes "30 \<le> card (dates df)"
  shows "\<exists>early_df mid_df late_df.
    slice_by_game_index df = Inr (early_df, mid_df, late_df) \<and>
    card (dates early_df) = 10 \<and> card (dates mid_df) = 10 \<and> card (dates late_df) = 10"
proof -
  let ?n = "card (dates df)"
  have rank_lt: "date_rank df (game_date r) < ?n" if "r \<in> set df" for r
    using later_dates [of "game_date r" df] that by simp
  obtain early_df mid_df late_df where
    s: "slice_by_game_index df = Inr (early_df, mid_df, late_df)" and
    e: "map event.truncate early_df = filter (\<lambda>r. date_rank df (game_date r) < 10) df" and
    m: "map event.truncate mid_df =
      filter (\<lambda>r. ?n div 2 - 5 \<le> date_rank df (game_date r) \<and>
                  date_rank df (game_date r) < ?n div 2 + 5) df" and
    l: "map event.truncate late_df = filter (\<lambda>r. ?n - 10 \<le> date_rank df (game_date r)) df"
    using slice_by_game_index_windows [OF assms] by blast
  have e': "map event.truncate early_df =
      filter (\<lambda>r. 0 \<le> date_rank df (game_date r) \<and> date_rank df (game_date r) < 0 + 10) df"
    using e by simp
  have eq: "?n div 2 + 5 = (?n div 2 - 5) + 10" using assms by simp
  have m': "map event.truncate mid_df =
      filter (\<lambda>r. ?n div 2 - 5 \<le> date_rank df (game_date r) \<and>
                  date_rank df (game_date r) < (?n div 2 - 5) + 10) df"
    using m by (simp only: eq)
  have "filter (\<lambda>r. ?n - 10 \<le> date_rank df (game_date r)) df =
        filter (\<lambda>r. ?n - 10 \<le> date_rank df (game_date r) \<and>
                    date_rank df (game_date r) < (?n - 10) + 10) df"
    using rank_lt assms by (intro filter_cong) auto
  then have l': "map event.truncate late_df =
      filter (\<lambda>r. ?n - 10 \<le> date_rank df (game_date r) \<and>
                  date_rank df (game_date r) < (?n - 10) + 10) df"
    using l by simp
  have "card (dates early_df) = 10"
    using assms by (intro window_games(1) [OF e']) simp
  moreover have "card (dates mid_df) = 10"
    using assms by (intro window_games(1) [OF m']) simp
  moreover have "card (dates late_df) = 10"
    using assms by (intro window_games(1) [OF l']) simp
  ultimately show ?thesis using s by blast
qed

text \<open>
  Claim C10. For a stream with at least 30 distinct game dates each of the three
  windows holds rows of exactly 10 distinct dates, so each window's \<open>games\<close> metric
  is 10, the analysis returns a result and its \<open>total_games_analyzed\<close> is 30; and
  whenever the analysis returns a result at all, its \<open>total_games_analyzed\<close> is 30.
\<close>

theorem analysis_counts_30_games:
  fixes df :: "event list"
  shows
  "(30 \<le> card (dates df) \<longrightarrow>
      (\<exists>early_df mid_df late_df early_metrics mid_metrics late_metrics d.
         slice_by_game_index df = Inr (early_df, mid_df, late_df) \<and>
         card (dates early_df) = 10 \<and> card (dates mid_df) = 10 \<and>
         card (dates late_df) = 10 \<and>
         aggregate_metrics early_df early_name = Inr early_metrics \<and>
         aggregate_metrics mid_df mid_name = Inr mid_metrics \<and>
         aggregate_metrics late_df late_name = Inr late_metrics \<and>
         games early_metrics = 10 \<and> games mid_metrics = 10 \<and> games late_metrics = 10 \<and>
         get_full_analysis last_name first_name df = Inr d \<and>
         map_of (summary d) ''total_games_analyzed'' = Some (Count 30))) \<and>
   (\<forall>d. get_full_analysis last_name first_name df = Inr d \<longrightarrow>
      map_of (summary d) ''total_games_analyzed'' = Some (Count 30))"
proof -
  have a: "\<exists>early_df mid_df late_df early_metrics mid_metrics late_metrics d.
         slice_by_game_index df = Inr (early_df, mid_df, late_df) \<and>
         card (dates early_df) = 10 \<and> card (dates mid_df) = 10 \<and>
         card (dates late_df) = 10 \<and>
         aggregate_metrics early_df early_name = Inr early_metrics \<and>
         aggregate_metrics mid_df mid_name = Inr mid_metrics \<and>
         aggregate_metrics late_df late_name = Inr late_metrics \<and>
         games early_metrics = 10 \<and> games mid_metrics = 10 \<and> games late_metrics = 10 \<and>
         get_full_analysis last_name first_name df = Inr d \<and>
         map_of (summary d) ''total_games_analyzed'' = Some (Count 30)"
    if h: "30 \<le> card (dates df)"
  proof -
    obtain early_df mid_df late_df where
      s: "slice_by_game_index df = Inr (early_df, mid_df, late_df)" and
      c: "card (dates early_df) = 10" "card (dates mid_df) = 10" "card (dates late_df) = 10"
      using slice_by_game_index_ten_games [OF h] by blast
    obtain em where em: "aggregate_metrics early_df early_name = Inr em"
      using aggregate_metrics_returns by blast
    obtain mm where mm: "aggregate_metrics mid_df mid_name = Inr mm"
      using aggregate_metrics_returns by blast
    obtain lm where lm: "aggregate_metrics late_df late_name = Inr lm"
      using aggregate_metrics_returns by blast
    have g: "games em = 10" "games mm = 10" "games lm = 10"
      using aggregate_metrics_games [OF em] aggregate_metrics_games [OF mm]
        aggregate_metrics_games [OF lm] c by simp_all
    have f: "get_full_analysis last_name first_name df =
          Inr (build_diagnosis_json (first_name @ '' '' @ last_name) em mm lm)"
      by (simp add: get_full_analysis_def s em mm lm)
    have "map_of (summary (build_diagnosis_json (first_name @ '' '' @ last_name) em mm lm))
            ''total_games_analyzed'' = Some (Count 30)"
      using g by (simp add: build_diagnosis_json_def)
    then show ?thesis
      using s c em mm lm g f by blast
  qed
  have "map_of (summary d) ''total_games_analyzed'' = Some (Count 30)"
    if d: "get_full_analysis last_name first_name df = Inr d" for d
  proof (cases "30 \<le> card (dates df)")
    case True
    then show ?thesis using a d by auto
  next
    case False
    then have "slice_by_game_index df = Inl (ValueError (sample_msg (int (card (dates df)))))"
      by (simp add: slice_by_game_index_eq)
    then have "get_full_analysis last_name first_name df =
               Inl (ValueError (sample_msg (int (card (dates df)))))"
      by (simp add: get_full_analysis_def and_then_def)
    then show ?thesis using d by simp
  qed
  then show ?thesis using a by blast
qed

theorem analysis_counts_30_games_witness:
  "30 \<le> card (dates (season 40)) \<and>
   (\<exists>d. get_full_analysis ''Ohtani'' ''Shohei'' (season 40) = Inr d \<and>
        map_of (summary d) ''total_games_analyzed'' = Some (Count 30))"
  using analysis_counts_30_games [of "season 40" "''Ohtani''" "''Shohei''"]
  by (simp add: card_dates_season) blast

end
